theory Spec2Isabelle
  imports Complex_Main
begin

section \<open>Tensors, matrices and errors\<close>

text \<open>
  The exceptions that \<^verbatim>\<open>outlines/text/generate/sequence.py\<close> and the tensor operations
  it calls can raise. Every fallible operation returns \<open>error + 'a\<close>, \<open>Inl\<close> the exception.
\<close>

datatype error = NotImplementedError | AssertionError | RuntimeError | IndexError

text \<open>
  A tensor of arbitrary rank is its shape and its elements in row-major order. The number
  of elements is read from the data. Floating-point entries are idealised as reals.
\<close>

record 'a tensor =
  shape :: "nat list"
  data :: "'a list"

text \<open>
  Inside the loop every tensor is two-dimensional, \<open>(rows, columns)\<close>: the rows as lists
  and the column count kept beside them (it is still defined when there are no rows).
\<close>

record 'a matrix =
  ncols :: nat
  mrows :: "'a list list"

text \<open>\<^verbatim>\<open>Union[str, List[str]]\<close>, the type of the prompt and of the result.\<close>

datatype str_or_list = Str string | StrList "string list"

text \<open>
  \<^verbatim>\<open>KVCacheType\<close>: a tuple of tuples of tensors; each tensor is the list of its rows along
  the batch axis, the rows themselves opaque.
\<close>

type_synonym 'r kv_cache = "'r list list list"

definition numel :: "'a tensor \<Rightarrow> nat" where
  "numel t = length (data t)"

text \<open>The size of the last axis; a zero-dimensional tensor is treated as one element.\<close>

definition last_dim :: "nat list \<Rightarrow> nat" where
  "last_dim sh = (if sh = [] then 1 else last sh)"

text \<open>The vectors along the last axis, in row-major order of the leading axes.\<close>

definition last_axis_rows :: "'a tensor \<Rightarrow> 'a list list" where
  "last_axis_rows t =
     (let v = last_dim (shape t)
      in map (\<lambda>r. take v (drop (r * v) (data t))) [0..<prod_list (butlast (shape t))])"

text \<open>\<^verbatim>\<open>t.squeeze(0)\<close>: drops the first axis when its size is 1.\<close>

definition squeeze0 :: "'a tensor \<Rightarrow> 'a tensor" where
  "squeeze0 t = (case shape t of [] \<Rightarrow> t
                 | d # sh \<Rightarrow> if d = 1 then t\<lparr>shape := sh\<rparr> else t)"

text \<open>\<^verbatim>\<open>t.unsqueeze(-1)\<close>.\<close>

definition unsqueeze_last :: "'a tensor \<Rightarrow> 'a tensor" where
  "unsqueeze_last t = t\<lparr>shape := shape t @ [1]\<rparr>"

text \<open>
  \<^verbatim>\<open>torch.broadcast_to(t, (samples,) + t.shape)\<close>: \<open>samples\<close> copies along a new leading
  axis; a negative size is refused.
\<close>

definition broadcast_to :: "int \<Rightarrow> 'a tensor \<Rightarrow> error + 'a tensor" where
  "broadcast_to samples t =
     (if samples < 0 then Inl RuntimeError
      else Inr \<lparr>shape = nat samples # shape t,
                data = concat (replicate (nat samples) (data t))\<rparr>)"

text \<open>\<^verbatim>\<open>t.reshape((r, c))\<close>: refused unless the element count is \<open>r * c\<close>.\<close>

definition reshape :: "'a tensor \<Rightarrow> int \<Rightarrow> nat \<Rightarrow> error + 'a matrix" where
  "reshape t r c =
     (if r < 0 \<or> int (numel t) \<noteq> r * int c then Inl RuntimeError
      else Inr \<lparr>ncols = c,
                mrows = map (\<lambda>i. take c (drop (i * c) (data t))) [0..<nat r]\<rparr>)"

text \<open>\<^verbatim>\<open>torch.full((n, c), x)\<close> and \<^verbatim>\<open>torch.ones((n, c))\<close>.\<close>

definition full :: "nat \<Rightarrow> nat \<Rightarrow> 'a \<Rightarrow> 'a matrix" where
  "full n c x = \<lparr>ncols = c, mrows = replicate n (replicate c x)\<rparr>"

definition ones :: "nat \<Rightarrow> nat \<Rightarrow> int matrix" where
  "ones n c = full n c 1"

text \<open>
  \<^verbatim>\<open>torch.concatenate([a, b], axis=-1)\<close> of two matrices: refused unless they have the
  same number of rows.
\<close>

definition concatenate :: "'a matrix \<Rightarrow> 'a matrix \<Rightarrow> error + 'a matrix" where
  "concatenate a b =
     (if length (mrows a) \<noteq> length (mrows b) then Inl RuntimeError
      else Inr \<lparr>ncols = ncols a + ncols b,
                mrows = map (\<lambda>(x, y). x @ y) (zip (mrows a) (mrows b))\<rparr>)"

text \<open>\<^verbatim>\<open>m[:, n:]\<close>.\<close>

definition drop_cols :: "nat \<Rightarrow> 'a matrix \<Rightarrow> 'a matrix" where
  "drop_cols n m = \<lparr>ncols = ncols m - n, mrows = map (drop n) (mrows m)\<rparr>"

text \<open>
  \<^verbatim>\<open>xs[mask]\<close> with a boolean mask along the first axis: the entries where the mask is
  true, in order; refused unless the mask is as long as the axis.
\<close>

definition mask_index :: "bool list \<Rightarrow> 'a list \<Rightarrow> error + 'a list" where
  "mask_index msk xs =
     (if length msk \<noteq> length xs then Inl IndexError
      else Inr (map snd (filter fst (zip msk xs))))"

text \<open>Writes the values, in order, at the positions where the mask is true.\<close>

fun scatter :: "bool list \<Rightarrow> 'a list \<Rightarrow> 'a list \<Rightarrow> 'a list" where
  "scatter (True # msk) (x # xs) (v # vs) = v # scatter msk xs vs"
| "scatter (False # msk) (x # xs) vs = x # scatter msk xs vs"
| "scatter msk xs vs = xs"

text \<open>
  \<^verbatim>\<open>xs[mask] = vs\<close>: the values must be as many as the selected positions, or a single
  value that is broadcast to all of them.
\<close>

definition mask_assign :: "bool list \<Rightarrow> 'a list \<Rightarrow> 'a list \<Rightarrow> error + 'a list" where
  "mask_assign msk xs vs =
     (if length msk \<noteq> length xs then Inl IndexError
      else let n = length (filter id msk)
           in if length vs = n then Inr (scatter msk xs vs)
              else if length vs = 1 then Inr (scatter msk xs (replicate n (hd vs)))
              else Inl RuntimeError)"

text \<open>A comprehension whose body can raise: the first exception ends it.\<close>

fun mapE :: "('a \<Rightarrow> error + 'b) \<Rightarrow> 'a list \<Rightarrow> error + 'b list" where
  "mapE f [] = Inr []"
| "mapE f (x # xs) =
     (case f x of Inl e \<Rightarrow> Inl e
      | Inr y \<Rightarrow> (case mapE f xs of Inl e \<Rightarrow> Inl e | Inr ys \<Rightarrow> Inr (y # ys)))"

section \<open>The categorical sampler\<close>

text \<open>
  \<^verbatim>\<open>torch.rand(shape, generator=rng)\<close>. The generator is torch's: \<open>uniform g k\<close> is element
  \<open>k\<close> (row-major) of a tensor filled from state \<open>g\<close>, \<open>advance g n\<close> the state after \<open>n\<close>
  elements were drawn.
\<close>

definition torch_rand ::
  "('g \<Rightarrow> nat \<Rightarrow> real) \<Rightarrow> ('g \<Rightarrow> nat \<Rightarrow> 'g) \<Rightarrow> nat list \<Rightarrow> 'g \<Rightarrow> real tensor \<times> 'g" where
  "torch_rand uniform advance sh g =
     (\<lparr>shape = sh, data = map (uniform g) [0..<prod_list sh]\<rparr>, advance g (prod_list sh))"

text \<open>\<^verbatim>\<open>row.cumsum()\<close>: the running sums.\<close>

fun cumsum_from :: "real \<Rightarrow> real list \<Rightarrow> real list" where
  "cumsum_from acc [] = []"
| "cumsum_from acc (x # xs) = (acc + x) # cumsum_from (acc + x) xs"

definition cumsum :: "real list \<Rightarrow> real list" where
  "cumsum xs = cumsum_from 0 xs"

text \<open>\<^verbatim>\<open>(cumsum < rand).sum(axis=-1)\<close> for one distribution and one draw.\<close>

definition count_below :: "real list \<Rightarrow> real \<Rightarrow> int" where
  "count_below cs u = int (length (filter (\<lambda>c. c < u) cs))"

text \<open>
  \<^verbatim>\<open>vectorized_random_choice(rng, p, samples)\<close>. The cumulative sums have shape
  \<open>(1,) + p.shape[:-1] + (vocab,)\<close>, the draws \<open>(samples,) + p.shape[:-1] + (1,)\<close>; entry
  \<open>i\<close> of the result (row-major) compares draw \<open>i\<close> with the sums of distribution
  \<open>i mod R\<close>, \<open>R\<close> the number of distributions. Returns the indices and the generator.
\<close>

definition vectorized_random_choice ::
  "('g \<Rightarrow> nat \<Rightarrow> real) \<Rightarrow> ('g \<Rightarrow> nat \<Rightarrow> 'g) \<Rightarrow> 'g \<Rightarrow> real tensor \<Rightarrow> int
     \<Rightarrow> error + (int tensor \<times> 'g)" where
  "vectorized_random_choice uniform advance rng p samples =
     (if samples < 0 then Inl RuntimeError
      else
        let bs = butlast (shape p);
            cums = map cumsum (last_axis_rows p);
            (rand, rng') = torch_rand uniform advance (nat samples # bs @ [1]) rng;
            idx = map (\<lambda>i. count_below (cums ! (i mod prod_list bs)) (data rand ! i))
                      [0..<nat samples * prod_list bs]
        in Inr (\<lparr>shape = nat samples # bs, data = idx\<rparr>, rng'))"

section \<open>The sequence generator\<close>

text \<open>
  An instance of \<^verbatim>\<open>Sequence\<close> with its collaborators: the model's \<^verbatim>\<open>forward\<close>, the
  tokenizer's \<^verbatim>\<open>encode\<close>, \<^verbatim>\<open>decode\<close> and \<^verbatim>\<open>pad_token_id\<close>, \<^verbatim>\<open>max_tokens\<close>, the three
  methods a subclass overrides, and torch's random generator (see \<open>torch_rand\<close>;
  \<open>rng_fresh\<close> is the state of a generator that has just been seeded by \<^verbatim>\<open>rng.seed()\<close>).
\<close>

record ('r, 'g) sequence =
  model_forward ::
    "int matrix \<Rightarrow> int matrix \<Rightarrow> 'r kv_cache option \<Rightarrow> real tensor \<times> 'r kv_cache option"
  tokenizer_encode :: "str_or_list \<Rightarrow> int tensor \<times> int tensor"
  tokenizer_decode :: "int matrix \<Rightarrow> string list"
  pad_token_id :: int
  max_tokens :: "int option"
  create_proposal_hook :: "int matrix \<Rightarrow> real tensor \<Rightarrow> real tensor"
  is_finished_hook :: "int matrix \<Rightarrow> error + bool tensor"
  postprocess_hook :: "string list \<Rightarrow> string list"
  rng_uniform :: "'g \<Rightarrow> nat \<Rightarrow> real"
  rng_advance :: "'g \<Rightarrow> nat \<Rightarrow> 'g"
  rng_fresh :: 'g

text \<open>The methods as the base class defines them.\<close>

definition create_proposal :: "int matrix \<Rightarrow> real tensor \<Rightarrow> real tensor" where
  "create_proposal generated_token_ids logits = logits"

definition is_finished :: "int matrix \<Rightarrow> error + bool tensor" where
  "is_finished token_ids = Inl NotImplementedError"

definition postprocess_completions :: "string list \<Rightarrow> string list" where
  "postprocess_completions completions = completions"

text \<open>\<^verbatim>\<open>torch.nn.functional.softmax(t, dim=-1)\<close>.\<close>

definition softmax_row :: "real list \<Rightarrow> real list" where
  "softmax_row xs = map (\<lambda>x. exp x / sum_list (map exp xs)) xs"

definition softmax :: "real tensor \<Rightarrow> real tensor" where
  "softmax t = t\<lparr>data := concat (map softmax_row (last_axis_rows t))\<rparr>"

text \<open>
  \<^verbatim>\<open>Sequence.step\<close>. Returns the next token ids, the broadcast probabilities, the model's
  incremental state and the generator.
\<close>

definition step ::
  "('r, 'g) sequence \<Rightarrow> 'g \<Rightarrow> nat \<Rightarrow> int matrix \<Rightarrow> int matrix \<Rightarrow> int \<Rightarrow> 'r kv_cache option
     \<Rightarrow> error + (int tensor \<times> real tensor \<times> 'r kv_cache option \<times> 'g)" where
  "step self rng num_prompt_tokens token_ids attention_mask samples past_key_values =
     (let (logits, past_key_values') =
            model_forward self token_ids attention_mask past_key_values;
          proposal = create_proposal_hook self (drop_cols num_prompt_tokens token_ids) logits;
          probs = softmax proposal
      in if butlast (shape probs) \<noteq> [length (mrows token_ids)] then Inl AssertionError
         else case vectorized_random_choice (rng_uniform self) (rng_advance self)
                     rng probs samples of
                Inl e \<Rightarrow> Inl e
              | Inr (idx, rng') \<Rightarrow>
                  (case broadcast_to samples probs of
                     Inl e \<Rightarrow> Inl e
                   | Inr probs' \<Rightarrow>
                       Inr (unsqueeze_last idx, probs', past_key_values', rng')))"

text \<open>\<^verbatim>\<open>Sequence.expand_attention_mask\<close>.\<close>

definition expand_attention_mask :: "int matrix \<Rightarrow> error + int matrix" where
  "expand_attention_mask attention_mask =
     concatenate attention_mask (ones (length (mrows attention_mask)) 1)"

text \<open>The variables of \<^verbatim>\<open>Sequence.__call__\<close> that the loop changes.\<close>

record ('r, 'g) loop_state =
  token_ids :: "int matrix"
  attention_mask :: "int matrix"
  is_finished_flags :: "bool list"
  unfinished_past_key_values :: "'r kv_cache option"
  rng :: 'g

text \<open>\<^verbatim>\<open>m[is_not_finished]\<close> for a matrix and the negated finished flags.\<close>

definition unfinished_rows :: "bool list \<Rightarrow> 'a matrix \<Rightarrow> error + 'a matrix" where
  "unfinished_rows flags m =
     (case mask_index (map Not flags) (mrows m) of
        Inl e \<Rightarrow> Inl e
      | Inr rs \<Rightarrow> Inr (m\<lparr>mrows := rs\<rparr>))"

text \<open>Python's truth value of the returned state: \<^verbatim>\<open>None\<close> and the empty tuple are false.\<close>

definition truthy :: "'r kv_cache option \<Rightarrow> bool" where
  "truthy past_key_values =
     (case past_key_values of None \<Rightarrow> False | Some kv \<Rightarrow> kv \<noteq> [])"

text \<open>
  \<^verbatim>\<open>tuple(tuple(vv[~local_is_finished] for vv in v) for v in past_key_values)\<close>.
\<close>

definition prune_past_key_values :: "bool list \<Rightarrow> 'r kv_cache \<Rightarrow> error + 'r kv_cache" where
  "prune_past_key_values local_is_finished past_key_values =
     mapE (\<lambda>v. mapE (\<lambda>vv. mask_index (map Not local_is_finished) vv) v) past_key_values"

text \<open>
  Lines 208 to 211: the stored state is replaced only when the returned one is true.
\<close>

definition update_past_key_values ::
  "bool list \<Rightarrow> 'r kv_cache option \<Rightarrow> 'r kv_cache option \<Rightarrow> error + 'r kv_cache option" where
  "update_past_key_values local_is_finished past_key_values unfinished =
     (if truthy past_key_values
      then (case prune_past_key_values local_is_finished (the past_key_values) of
              Inl e \<Rightarrow> Inl e
            | Inr kv \<Rightarrow> Inr (Some kv))
      else Inr unfinished)"

text \<open>The loop's exit test, lines 173 to 175.\<close>

definition should_stop :: "('r, 'g) sequence \<Rightarrow> nat \<Rightarrow> ('r, 'g) loop_state \<Rightarrow> bool" where
  "should_stop self num_prompt_tokens s =
     (let num_generated_tokens = int (ncols (token_ids s)) - int num_prompt_tokens
      in list_all id (is_finished_flags s) \<or> Some num_generated_tokens = max_tokens self)"

text \<open>
  Lines 177 to 187: what the model's \<^verbatim>\<open>forward\<close> is called with, the rows of the token ids
  and of the attention mask that are not finished and the stored incremental state.
\<close>

definition forward_args ::
  "('r, 'g) loop_state \<Rightarrow> error + (int matrix \<times> int matrix \<times> 'r kv_cache option)" where
  "forward_args s =
     (case unfinished_rows (is_finished_flags s) (token_ids s) of
        Inl e \<Rightarrow> Inl e
      | Inr unfinished_token_ids \<Rightarrow>
     (case unfinished_rows (is_finished_flags s) (attention_mask s) of
        Inl e \<Rightarrow> Inl e
      | Inr unfinished_attention_mask \<Rightarrow>
          Inr (unfinished_token_ids, unfinished_attention_mask,
               unfinished_past_key_values s)))"

text \<open>One pass through the loop body, lines 177 to 211.\<close>

definition iteration ::
  "('r, 'g) sequence \<Rightarrow> nat \<Rightarrow> nat \<Rightarrow> ('r, 'g) loop_state \<Rightarrow> error + ('r, 'g) loop_state" where
  "iteration self num_prompt_tokens batch_size s =
     (case forward_args s of
        Inl e \<Rightarrow> Inl e
      | Inr (unfinished_token_ids, unfinished_attention_mask, stored) \<Rightarrow>
     (case step self (rng s) num_prompt_tokens unfinished_token_ids
             unfinished_attention_mask 1 stored of
        Inl e \<Rightarrow> Inl e
      | Inr (next_ids, probs, past_key_values, rng') \<Rightarrow>
     (case mask_assign (map Not (is_finished_flags s))
             (mrows (full batch_size 1 (pad_token_id self)))
             (last_axis_rows (squeeze0 next_ids)) of
        Inl e \<Rightarrow> Inl e
      | Inr next_rows \<Rightarrow>
     (case concatenate (token_ids s) \<lparr>ncols = 1, mrows = next_rows\<rparr> of
        Inl e \<Rightarrow> Inl e
      | Inr token_ids' \<Rightarrow>
     (case expand_attention_mask (attention_mask s) of
        Inl e \<Rightarrow> Inl e
      | Inr attention_mask' \<Rightarrow>
     (case unfinished_rows (is_finished_flags s) token_ids' of
        Inl e \<Rightarrow> Inl e
      | Inr active \<Rightarrow>
     (case is_finished_hook self (drop_cols num_prompt_tokens active) of
        Inl e \<Rightarrow> Inl e
      | Inr finished \<Rightarrow>
     (case mask_assign (map Not (is_finished_flags s)) (is_finished_flags s)
             (data finished) of
        Inl e \<Rightarrow> Inl e
      | Inr is_finished' \<Rightarrow>
     (case update_past_key_values (data finished) past_key_values stored of
        Inl e \<Rightarrow> Inl e
      | Inr unfinished' \<Rightarrow>
          Inr \<lparr>token_ids = token_ids', attention_mask = attention_mask',
               is_finished_flags = is_finished',
               unfinished_past_key_values = unfinished', rng = rng'\<rparr>)))))))))"

text \<open>
  The state at the head of the loop after at most \<open>k\<close> passes: it stays where the exit test
  holds, and an exception ends the run.
\<close>

fun run_iterations ::
  "('r, 'g) sequence \<Rightarrow> nat \<Rightarrow> nat \<Rightarrow> nat \<Rightarrow> ('r, 'g) loop_state
     \<Rightarrow> error + ('r, 'g) loop_state" where
  "run_iterations self num_prompt_tokens batch_size 0 s = Inr s"
| "run_iterations self num_prompt_tokens batch_size (Suc k) s =
     (if should_stop self num_prompt_tokens s then Inr s
      else case iteration self num_prompt_tokens batch_size s of
             Inl e \<Rightarrow> Inl e
           | Inr s' \<Rightarrow> run_iterations self num_prompt_tokens batch_size k s')"


text \<open>
  Lines 143 to 170 of \<^verbatim>\<open>Sequence.__call__\<close>: the prompt length, the batch size and the state
  the loop starts from.
\<close>

definition initial_state ::
  "('r, 'g) sequence \<Rightarrow> str_or_list \<Rightarrow> int \<Rightarrow> 'g option
     \<Rightarrow> error + (nat \<times> nat \<times> ('r, 'g) loop_state)" where
  "initial_state self prompt samples rng_arg =
     (let (encoded_ids, encoded_mask) = tokenizer_encode self prompt;
          ids = squeeze0 encoded_ids;
          msk = squeeze0 encoded_mask;
          rng0 = (case rng_arg of None \<Rightarrow> rng_fresh self | Some g \<Rightarrow> g)
      in if shape ids = [] then Inl IndexError
         else
           let orig_batch_shape = butlast (shape ids);
               num_prompt_tokens = last (shape ids)
           in case broadcast_to samples ids of
                Inl e \<Rightarrow> Inl e
              | Inr ids_b \<Rightarrow>
             (case broadcast_to samples msk of
                Inl e \<Rightarrow> Inl e
              | Inr msk_b \<Rightarrow>
             (let batch_size = samples * int (prod_list orig_batch_shape)
              in case reshape ids_b batch_size num_prompt_tokens of
                   Inl e \<Rightarrow> Inl e
                 | Inr ids_m \<Rightarrow>
                (case reshape msk_b batch_size num_prompt_tokens of
                   Inl e \<Rightarrow> Inl e
                 | Inr msk_m \<Rightarrow>
                     Inr (num_prompt_tokens, nat batch_size,
                          \<lparr>token_ids = ids_m, attention_mask = msk_m,
                           is_finished_flags = replicate (nat batch_size) False,
                           unfinished_past_key_values = None, rng = rng0\<rparr>)))))"

text \<open>Lines 213 to 219: decode the generated columns and unwrap a single completion.\<close>

definition completions ::
  "('r, 'g) sequence \<Rightarrow> nat \<Rightarrow> ('r, 'g) loop_state \<Rightarrow> str_or_list" where
  "completions self num_prompt_tokens s =
     (let result = tokenizer_decode self (drop_cols num_prompt_tokens (token_ids s));
          result' = postprocess_hook self result
      in if length result' = 1 then Str (result' ! 0) else StrList result')"


section \<open>A concrete generator\<close>

text \<open>
  A small instance on which the definitions are evaluated: prompts of one token (\<open>7\<close> for
  \<open>''a''\<close>, \<open>8\<close> otherwise), a vocabulary of two tokens, token \<open>1\<close> ending a row. The model
  prefers token \<open>1\<close> for a row that starts with \<open>7\<close> and has at least two columns, and token
  \<open>0\<close> otherwise; it returns an incremental state only when it was given none. Every
  draw of the generator is \<open>1/2\<close>.
\<close>

definition ex_logits :: "int list \<Rightarrow> real list" where
  "ex_logits row = (if take 1 row = [7] \<and> 2 \<le> length row then [0, ln 3] else [ln 3, 0])"

definition ex_forward ::
  "int matrix \<Rightarrow> int matrix \<Rightarrow> int kv_cache option \<Rightarrow> real tensor \<times> int kv_cache option" where
  "ex_forward ids msk past =
     (\<lparr>shape = [length (mrows ids), 2], data = concat (map ex_logits (mrows ids))\<rparr>,
      if past = None then Some [[map (\<lambda>r. r ! 0) (mrows ids), map (\<lambda>r. r ! 0) (mrows ids)]]
      else None)"

definition ex_token :: "string \<Rightarrow> int" where
  "ex_token s = (if s = ''a'' then 7 else 8)"

definition ex_encode :: "str_or_list \<Rightarrow> int tensor \<times> int tensor" where
  "ex_encode prompt =
     (case prompt of
        Str s \<Rightarrow> (\<lparr>shape = [1, 1], data = [ex_token s]\<rparr>, \<lparr>shape = [1, 1], data = [1]\<rparr>)
      | StrList ss \<Rightarrow>
          (\<lparr>shape = [length ss, 1], data = map ex_token ss\<rparr>,
           \<lparr>shape = [length ss, 1], data = map (\<lambda>s. 1) ss\<rparr>))"

definition ex_char :: "int \<Rightarrow> char" where
  "ex_char t = (if t = 0 then CHR ''x'' else if t = 1 then CHR ''.'' else CHR ''_'')"

definition ex_decode :: "int matrix \<Rightarrow> string list" where
  "ex_decode m = map (map ex_char) (mrows m)"

definition ex_is_finished :: "int matrix \<Rightarrow> error + bool tensor" where
  "ex_is_finished m =
     Inr \<lparr>shape = [length (mrows m)], data = map (\<lambda>r. r \<noteq> [] \<and> last r = 1) (mrows m)\<rparr>"

definition ex_uniform :: "nat \<Rightarrow> nat \<Rightarrow> real" where
  "ex_uniform g k = 1 / 2"

definition ex_advance :: "nat \<Rightarrow> nat \<Rightarrow> nat" where
  "ex_advance g n = g + n"

definition ex_seq :: "int option \<Rightarrow> (int, nat) sequence" where
  "ex_seq m =
     \<lparr>model_forward = ex_forward, tokenizer_encode = ex_encode, tokenizer_decode = ex_decode,
      pad_token_id = 9, max_tokens = m, create_proposal_hook = create_proposal,
      is_finished_hook = ex_is_finished, postprocess_hook = postprocess_completions,
      rng_uniform = ex_uniform, rng_advance = ex_advance, rng_fresh = 0\<rparr>"



definition ex_point_mass :: "real tensor" where
  "ex_point_mass = \<lparr>shape = [1, 2], data = [0, 1]\<rparr>"

text \<open>A generator whose draws are all \<open>0\<close>, the least value of \<open>[0, 1)\<close>.\<close>

definition ex_uniform_zero :: "nat \<Rightarrow> nat \<Rightarrow> real" where
  "ex_uniform_zero g k = 0"

section \<open>Shape of the loop state\<close>

text \<open>
  What the claims about shapes say of a loop state with \<open>batch_size\<close> rows: the token ids,
  the attention mask and the finished flags have that many rows, the two matrices have the
  same column count, and every row is as long as the column count.
\<close>

definition shapes_agree :: "nat \<Rightarrow> ('r, 'g) loop_state \<Rightarrow> bool" where
  "shapes_agree batch_size s =
     (length (mrows (token_ids s)) = batch_size
      \<and> length (mrows (attention_mask s)) = batch_size
      \<and> length (is_finished_flags s) = batch_size
      \<and> ncols (attention_mask s) = ncols (token_ids s)
      \<and> list_all (\<lambda>r. length r = ncols (token_ids s)) (mrows (token_ids s))
      \<and> list_all (\<lambda>r. length r = ncols (attention_mask s)) (mrows (attention_mask s)))"

text \<open>The indices of the rows that are not finished, in increasing order.\<close>

definition active_indices :: "bool list \<Rightarrow> nat list" where
  "active_indices flags = filter (\<lambda>j. \<not> flags ! j) [0..<length flags]"

text \<open>
  The states of the concrete generator on the prompts \<open>[''a'', ''b'']\<close> with two samples:
  at the start and after one, two and three passes.
\<close>

definition ex_s0 :: "(int, nat) loop_state" where
  "ex_s0 = \<lparr>token_ids = \<lparr>ncols = 1, mrows = [[7], [8], [7], [8]]\<rparr>,
            attention_mask = \<lparr>ncols = 1, mrows = [[1], [1], [1], [1]]\<rparr>,
            is_finished_flags = [False, False, False, False],
            unfinished_past_key_values = None, rng = 0\<rparr>"

definition ex_s1 :: "(int, nat) loop_state" where
  "ex_s1 = \<lparr>token_ids = \<lparr>ncols = 2, mrows = [[7, 0], [8, 0], [7, 0], [8, 0]]\<rparr>,
            attention_mask = \<lparr>ncols = 2, mrows = [[1, 1], [1, 1], [1, 1], [1, 1]]\<rparr>,
            is_finished_flags = [False, False, False, False],
            unfinished_past_key_values = Some [[[7, 8, 7, 8], [7, 8, 7, 8]]], rng = 4\<rparr>"

definition ex_s2 :: "(int, nat) loop_state" where
  "ex_s2 = \<lparr>token_ids = \<lparr>ncols = 3, mrows = [[7, 0, 1], [8, 0, 0], [7, 0, 1], [8, 0, 0]]\<rparr>,
            attention_mask =
              \<lparr>ncols = 3, mrows = [[1, 1, 1], [1, 1, 1], [1, 1, 1], [1, 1, 1]]\<rparr>,
            is_finished_flags = [True, False, True, False],
            unfinished_past_key_values = Some [[[7, 8, 7, 8], [7, 8, 7, 8]]], rng = 8\<rparr>"

definition ex_s3 :: "(int, nat) loop_state" where
  "ex_s3 = \<lparr>token_ids =
              \<lparr>ncols = 4, mrows = [[7, 0, 1, 9], [8, 0, 0, 0], [7, 0, 1, 9], [8, 0, 0, 0]]\<rparr>,
            attention_mask =
              \<lparr>ncols = 4, mrows = [[1, 1, 1, 1], [1, 1, 1, 1], [1, 1, 1, 1], [1, 1, 1, 1]]\<rparr>,
            is_finished_flags = [True, False, True, False],
            unfinished_past_key_values = Some [[[7, 8, 7, 8], [7, 8, 7, 8]]], rng = 10\<rparr>"

text \<open>
  The same generator with a model that returns an incremental state on every call, one
  row per row of its input, and the state after two passes with that model.
\<close>

definition ex_forward_cached ::
  "int matrix \<Rightarrow> int matrix \<Rightarrow> int kv_cache option \<Rightarrow> real tensor \<times> int kv_cache option" where
  "ex_forward_cached ids msk past =
     (fst (ex_forward ids msk past),
      Some [[map (\<lambda>r. r ! 0) (mrows ids), map (\<lambda>r. r ! 0) (mrows ids)]])"

definition ex_seq_cached :: "int option \<Rightarrow> (int, nat) sequence" where
  "ex_seq_cached m = (ex_seq m)\<lparr>model_forward := ex_forward_cached\<rparr>"

definition ex_s2_cached :: "(int, nat) loop_state" where
  "ex_s2_cached = ex_s2\<lparr>unfinished_past_key_values := Some [[[8, 8], [8, 8]]]\<rparr>"

section \<open>States that differ in the generator only\<close>


section \<open>Properties of the sampler\<close>



lemma cumsum_from_nth:
  "k < length xs \<Longrightarrow> cumsum_from a xs ! k = a + sum_list (take (Suc k) xs)"
proof (induction xs arbitrary: a k)
  case Nil
  then show ?case by simp
next
  case (Cons x xs)
  then show ?case by (cases k) (auto simp: algebra_simps)
qed

text \<open>Entry \<open>k\<close> of the running sums is the sum of the first \<open>k + 1\<close> entries.\<close>

lemma cumsum_nth: "k < length xs \<Longrightarrow> cumsum xs ! k = sum_list (take (Suc k) xs)"
  by (simp add: cumsum_def cumsum_from_nth)




lemma length_last_axis_rows: "length (last_axis_rows t) = prod_list (butlast (shape t))"
  by (simp add: last_axis_rows_def Let_def)


text \<open>The sampler in closed form: it raises only for a negative sample count.\<close>

lemma vectorized_random_choice_Inr:
  assumes "0 \<le> n"
  shows "vectorized_random_choice uniform advance g p n =
     Inr (\<lparr>shape = nat n # butlast (shape p),
           data = map (\<lambda>i. count_below
                             (cumsum (last_axis_rows p ! (i mod prod_list (butlast (shape p)))))
                             (uniform g i))
                      [0..<nat n * prod_list (butlast (shape p))]\<rparr>,
          advance g (nat n * prod_list (butlast (shape p))))"
proof -
  have "i mod prod_list (butlast (shape p)) < prod_list (butlast (shape p))"
    if "i < nat n * prod_list (butlast (shape p))" for i
    using that by (cases "prod_list (butlast (shape p)) = 0") auto
  then show ?thesis
    using assms
    by (auto simp: vectorized_random_choice_def torch_rand_def Let_def length_last_axis_rows)
qed



text \<open>
  A point mass on index \<open>j\<close>: for every draw above 0 the count is \<open>j\<close>.
\<close>

lemma cumsum_from_replicate_zero: "cumsum_from a (replicate n 0) = replicate n a"
  by (induction n) auto

lemma cumsum_from_append:
  "cumsum_from a (xs @ ys) = cumsum_from a xs @ cumsum_from (a + sum_list xs) ys"
  by (induction xs arbitrary: a) (auto simp: add.assoc)

lemma point_mass_positive_draw:
  assumes "0 < u" "u \<le> 1"
  shows "count_below (cumsum (replicate j 0 @ 1 # replicate m 0)) u = int j"
  using assms
  by (simp add: cumsum_def cumsum_from_append cumsum_from_replicate_zero count_below_def
        sum_list_replicate)

text \<open>
  C3, at an input where the code departs from it. The distribution puts probability 1 on
  index 1; the draw is \<open>0\<close>, which lies in \<open>[0, 1)\<close>. No running sum is strictly below
  \<open>0\<close>, so the sampler returns index 0, whose probability is 0.
\<close>

theorem sampler_point_mass_zero_draw:
  "vectorized_random_choice ex_uniform_zero ex_advance 0 ex_point_mass 1
     = Inr (\<lparr>shape = [1, 1], data = [0]\<rparr>, 1)"
  by (simp add: vectorized_random_choice_Inr ex_point_mass_def ex_uniform_zero_def
        ex_advance_def last_axis_rows_def last_dim_def cumsum_def count_below_def)




section \<open>Masks, scatter and one step\<close>

lemma length_scatter: "length (scatter msk xs vs) = length xs"
  by (induction msk xs vs rule: scatter.induct) auto

lemma scatter_unselected:
  "i < length xs \<Longrightarrow> i < length msk \<Longrightarrow> \<not> msk ! i \<Longrightarrow> scatter msk xs vs ! i = xs ! i"
proof (induction msk xs vs arbitrary: i rule: scatter.induct)
  case (1 msk x xs v vs)
  then show ?case by (cases i) auto
next
  case (2 msk x xs vs)
  then show ?case by (cases i) auto
qed auto

lemma set_scatter: "set (scatter msk xs vs) \<subseteq> set xs \<union> set vs"
  by (induction msk xs vs rule: scatter.induct) auto

lemma mask_assign_length: "mask_assign msk xs vs = Inr ys \<Longrightarrow> length ys = length xs"
  by (auto simp: mask_assign_def Let_def length_scatter split: if_splits)

lemma mask_assign_unselected:
  "mask_assign msk xs vs = Inr ys \<Longrightarrow> i < length xs \<Longrightarrow> \<not> msk ! i \<Longrightarrow> ys ! i = xs ! i"
  by (auto simp: mask_assign_def Let_def scatter_unselected split: if_splits)

lemma mask_assign_set:
  assumes "mask_assign msk xs vs = Inr ys"
  shows "set ys \<subseteq> set xs \<union> set vs"
proof -
  let ?n = "length (filter id msk)"
  from assms consider "ys = scatter msk xs vs"
    | "length vs = 1" "ys = scatter msk xs (replicate ?n (hd vs))"
    by (auto simp: mask_assign_def Let_def split: if_splits)
  then show ?thesis
  proof cases
    case 1
    then show ?thesis using set_scatter [of msk xs vs] by simp
  next
    case 2
    from 2(1) have "set (replicate ?n (hd vs)) \<subseteq> set vs" by (cases vs) auto
    then show ?thesis
      using set_scatter [of msk xs "replicate ?n (hd vs)"] 2(2) by blast
  qed
qed

lemma mask_index_upt:
  assumes "length msk = length xs"
  shows "mask_index msk xs = Inr (map (\<lambda>j. xs ! j) (filter (\<lambda>j. msk ! j) [0..<length xs]))"
proof -
  have z: "zip msk xs = map (\<lambda>j. (msk ! j, xs ! j)) [0..<length xs]"
    using assms by (intro nth_equalityI) auto
  show ?thesis
    using assms unfolding mask_index_def z by (simp add: filter_map o_def)
qed

lemma mask_index_length:
  "mask_index msk xs = Inr ys \<Longrightarrow> length ys = length (filter id msk)"
proof -
  assume a: "mask_index msk xs = Inr ys"
  then have l: "length msk = length xs" by (auto simp: mask_index_def split: if_splits)
  have "length (filter fst (zip msk xs)) = length (filter id msk)"
    using l by (induction msk xs rule: list_induct2) auto
  with a l show ?thesis by (auto simp: mask_index_def)
qed

lemma singleton_rows: "map (\<lambda>r. take (Suc 0) (drop r d)) [0..<length d] = map (\<lambda>x. [x]) d"
proof (rule nth_equalityI)
  show "length (map (\<lambda>r. take (Suc 0) (drop r d)) [0..<length d]) = length (map (\<lambda>x. [x]) d)"
    by simp
next
  fix i
  assume "i < length (map (\<lambda>r. take (Suc 0) (drop r d)) [0..<length d])"
  then have i: "i < length d" by simp
  then have "drop i d = d ! i # drop (Suc i) d" by (simp add: Cons_nth_drop_Suc)
  then show "map (\<lambda>r. take (Suc 0) (drop r d)) [0..<length d] ! i = map (\<lambda>x. [x]) d ! i"
    using i by simp
qed

lemma step_InrE:
  assumes "step self g L ut um 1 pk = Inr (next_ids, probs, pkv, g')"
  obtains d where "last_axis_rows (squeeze0 next_ids) = map (\<lambda>x. [x]) d"
    "length d = length (mrows ut)"
    "pkv = snd (model_forward self ut um pk)"
    "g' = rng_advance self g (length (mrows ut))"
proof -
  obtain logits pkv0 where f: "model_forward self ut um pk = (logits, pkv0)"
    by (cases "model_forward self ut um pk")
  let ?probs = "softmax (create_proposal_hook self (drop_cols L ut) logits)"
  from assms f have sh: "butlast (shape ?probs) = [length (mrows ut)]"
    by (auto simp: step_def Let_def split: if_splits)
  let ?d = "map (\<lambda>i. count_below (cumsum (last_axis_rows ?probs ! (i mod length (mrows ut))))
                           (rng_uniform self g i)) [0..<length (mrows ut)]"
  have v: "vectorized_random_choice (rng_uniform self) (rng_advance self) g ?probs 1
      = Inr (\<lparr>shape = [1, length (mrows ut)], data = ?d\<rparr>, rng_advance self g (length (mrows ut)))"
    using vectorized_random_choice_Inr [of 1 "rng_uniform self" "rng_advance self" g ?probs]
    by (simp add: sh)
  from assms f sh v have 1: "next_ids = \<lparr>shape = [1, length (mrows ut), 1], data = ?d\<rparr>"
    and 2: "pkv = pkv0" and 3: "g' = rng_advance self g (length (mrows ut))"
    by (auto simp: step_def Let_def unsqueeze_last_def broadcast_to_def split: if_splits)
  have "last_axis_rows (squeeze0 next_ids) = map (\<lambda>x. [x]) ?d"
    unfolding 1 using singleton_rows [of ?d]
    by (simp add: squeeze0_def last_axis_rows_def last_dim_def)
  then show ?thesis
    using that [of ?d] 2 3 f by simp
qed

text \<open>What a pass through the loop body that raises nothing has computed.\<close>

lemma iteration_InrE:
  assumes "iteration self L B s = Inr s'"
  obtains ut um next_ids probs pkv g' next_rows tok' am' active finished fl' ukv' where
    "forward_args s = Inr (ut, um, unfinished_past_key_values s)"
    "step self (rng s) L ut um 1 (unfinished_past_key_values s) = Inr (next_ids, probs, pkv, g')"
    "mask_assign (map Not (is_finished_flags s)) (mrows (full B 1 (pad_token_id self)))
       (last_axis_rows (squeeze0 next_ids)) = Inr next_rows"
    "concatenate (token_ids s) \<lparr>ncols = 1, mrows = next_rows\<rparr> = Inr tok'"
    "expand_attention_mask (attention_mask s) = Inr am'"
    "unfinished_rows (is_finished_flags s) tok' = Inr active"
    "is_finished_hook self (drop_cols L active) = Inr finished"
    "mask_assign (map Not (is_finished_flags s)) (is_finished_flags s) (data finished) = Inr fl'"
    "update_past_key_values (data finished) pkv (unfinished_past_key_values s) = Inr ukv'"
    "s' = \<lparr>token_ids = tok', attention_mask = am', is_finished_flags = fl',
           unfinished_past_key_values = ukv', rng = g'\<rparr>"
  using assms
  unfolding iteration_def forward_args_def
  by (auto split: sum.splits prod.splits)

section \<open>Shapes are kept by the loop\<close>

lemma reshape_rows_length:
  assumes "reshape t r c = Inr m"
  shows "ncols m = c \<and> length (mrows m) = nat r \<and> list_all (\<lambda>row. length row = c) (mrows m)"
proof -
  from assms have r: "0 \<le> r" and n: "int (length (data t)) = r * int c"
    and m: "m = \<lparr>ncols = c, mrows = map (\<lambda>i. take c (drop (i * c) (data t))) [0..<nat r]\<rparr>"
    by (auto simp: reshape_def numel_def split: if_splits)
  have len: "length (data t) = nat r * c"
    using r n by (metis nat_int nat_mult_distrib)
  have "length (take c (drop (i * c) (data t))) = c" if "i < nat r" for i
  proof -
    from that have "Suc i * c \<le> nat r * c" by (intro mult_le_mono1) simp
    then show ?thesis using len by simp
  qed
  then show ?thesis using m by (simp add: list_all_iff)
qed

lemma initial_state_InrE:
  assumes "initial_state self prompt samples rng_arg = Inr (L, B, s0)"
  obtains ids_b msk_b ids_m msk_m where
    "shape (squeeze0 (fst (tokenizer_encode self prompt))) \<noteq> []"
    "L = last (shape (squeeze0 (fst (tokenizer_encode self prompt))))"
    "B = nat (samples * int (prod_list (butlast
               (shape (squeeze0 (fst (tokenizer_encode self prompt)))))))"
    "broadcast_to samples (squeeze0 (fst (tokenizer_encode self prompt))) = Inr ids_b"
    "broadcast_to samples (squeeze0 (snd (tokenizer_encode self prompt))) = Inr msk_b"
    "reshape ids_b (samples * int (prod_list (butlast
               (shape (squeeze0 (fst (tokenizer_encode self prompt))))))) L = Inr ids_m"
    "reshape msk_b (samples * int (prod_list (butlast
               (shape (squeeze0 (fst (tokenizer_encode self prompt))))))) L = Inr msk_m"
    "s0 = \<lparr>token_ids = ids_m, attention_mask = msk_m,
            is_finished_flags = replicate B False,
            unfinished_past_key_values = None,
            rng = (case rng_arg of None \<Rightarrow> rng_fresh self | Some g \<Rightarrow> g)\<rparr>"
  using assms
  unfolding initial_state_def Let_def
  by (auto split: sum.splits prod.splits if_splits)

lemma initial_state_shapes:
  assumes "initial_state self prompt samples rng_arg = Inr (L, B, s0)"
  shows "shapes_agree B s0 \<and> ncols (token_ids s0) = L
         \<and> is_finished_flags s0 = replicate B False
         \<and> unfinished_past_key_values s0 = None
         \<and> rng s0 = (case rng_arg of None \<Rightarrow> rng_fresh self | Some g \<Rightarrow> g)"
proof (rule initial_state_InrE [OF assms])
  fix ids_b msk_b :: "int tensor" and ids_m msk_m :: "int matrix"
  let ?bs = "samples * int (prod_list (butlast
               (shape (squeeze0 (fst (tokenizer_encode self prompt))))))"
  assume B: "B = nat ?bs"
    and r1: "reshape ids_b ?bs L = Inr ids_m"
    and r2: "reshape msk_b ?bs L = Inr msk_m"
    and s0: "s0 = \<lparr>token_ids = ids_m, attention_mask = msk_m,
            is_finished_flags = replicate B False,
            unfinished_past_key_values = None,
            rng = (case rng_arg of None \<Rightarrow> rng_fresh self | Some g \<Rightarrow> g)\<rparr>"
  show ?thesis
    using reshape_rows_length [OF r1] reshape_rows_length [OF r2] B s0
    by (simp add: shapes_agree_def)
qed

lemma expand_attention_mask_Inr:
  "expand_attention_mask m = Inr \<lparr>ncols = ncols m + 1, mrows = map (\<lambda>r. r @ [1]) (mrows m)\<rparr>"
proof -
  have "map (\<lambda>(x, y). x @ y) (zip xs (replicate (length xs) [1::int])) = map (\<lambda>r. r @ [1]) xs"
    for xs :: "int list list"
    by (induction xs) auto
  then show ?thesis
    by (simp add: expand_attention_mask_def concatenate_def ones_def full_def)
qed

lemma concatenate_rows:
  assumes "concatenate a b = Inr c"
  shows "ncols c = ncols a + ncols b \<and> length (mrows c) = length (mrows a)
     \<and> (\<forall>i < length (mrows a). mrows c ! i = mrows a ! i @ mrows b ! i)"
  using assms by (auto simp: concatenate_def split: if_splits)

text \<open>One pass keeps the shapes, appends one column, and pads the finished rows.\<close>

lemma iteration_shapes:
  assumes it: "iteration self L B s = Inr s'" and sh: "shapes_agree B s"
  shows "shapes_agree B s'"
    and "ncols (token_ids s') = ncols (token_ids s) + 1"
    and "attention_mask s' = \<lparr>ncols = ncols (attention_mask s) + 1,
                               mrows = map (\<lambda>r. r @ [1]) (mrows (attention_mask s))\<rparr>"
    and "\<forall>i < B. \<exists>x. mrows (token_ids s') ! i = mrows (token_ids s) ! i @ [x]"
    and "\<forall>i < B. is_finished_flags s ! i \<longrightarrow>
           is_finished_flags s' ! i
           \<and> mrows (token_ids s') ! i = mrows (token_ids s) ! i @ [pad_token_id self]"
proof -
  from it obtain ut um next_ids probs pkv g' next_rows tok' am' active finished fl' ukv' where
    fa: "forward_args s = Inr (ut, um, unfinished_past_key_values s)" and
    st: "step self (rng s) L ut um 1 (unfinished_past_key_values s) = Inr (next_ids, probs, pkv, g')" and
    nr: "mask_assign (map Not (is_finished_flags s)) (mrows (full B 1 (pad_token_id self)))
       (last_axis_rows (squeeze0 next_ids)) = Inr next_rows" and
    co: "concatenate (token_ids s) \<lparr>ncols = 1, mrows = next_rows\<rparr> = Inr tok'" and
    ex: "expand_attention_mask (attention_mask s) = Inr am'" and
    ur: "unfinished_rows (is_finished_flags s) tok' = Inr active" and
    hk: "is_finished_hook self (drop_cols L active) = Inr finished" and
    fl: "mask_assign (map Not (is_finished_flags s)) (is_finished_flags s) (data finished) = Inr fl'" and
    up: "update_past_key_values (data finished) pkv (unfinished_past_key_values s) = Inr ukv'" and
    s': "s' = \<lparr>token_ids = tok', attention_mask = am', is_finished_flags = fl',
           unfinished_past_key_values = ukv', rng = g'\<rparr>"
    by (rule iteration_InrE)
  from sh have lt: "length (mrows (token_ids s)) = B" and la: "length (mrows (attention_mask s)) = B"
    and lf: "length (is_finished_flags s) = B" and nc: "ncols (attention_mask s) = ncols (token_ids s)"
    and rt: "\<forall>r \<in> set (mrows (token_ids s)). length r = ncols (token_ids s)"
    and ra: "\<forall>r \<in> set (mrows (attention_mask s)). length r = ncols (attention_mask s)"
    by (auto simp: shapes_agree_def list_all_iff)
  from st obtain d where d: "last_axis_rows (squeeze0 next_ids) = map (\<lambda>x. [x]) d"
    by (rule step_InrE)
  have lnr: "length next_rows = B"
    using mask_assign_length [OF nr] by (simp add: full_def)
  have "set next_rows \<subseteq> set (replicate B [pad_token_id self]) \<union> set (map (\<lambda>x. [x]) d)"
    using mask_assign_set [OF nr] d by (simp add: full_def)
  then have one: "\<forall>r \<in> set next_rows. \<exists>x. r = [x]" by auto
  have am': "am' = \<lparr>ncols = ncols (attention_mask s) + 1,
                     mrows = map (\<lambda>r. r @ [1]) (mrows (attention_mask s))\<rparr>"
    using ex by (simp add: expand_attention_mask_Inr)
  from concatenate_rows [OF co]
  have ct: "ncols tok' = ncols (token_ids s) + 1" and lt': "length (mrows tok') = B"
    and rows: "\<forall>i < B. mrows tok' ! i = mrows (token_ids s) ! i @ next_rows ! i"
    using lt by auto
  have lfl: "length fl' = B" using mask_assign_length [OF fl] lf by simp
  have app: "\<forall>i < B. \<exists>x. mrows tok' ! i = mrows (token_ids s) ! i @ [x]"
  proof (intro allI impI)
    fix i assume i: "i < B"
    then have "next_rows ! i \<in> set next_rows" using lnr by simp
    with one obtain x where "next_rows ! i = [x]" by blast
    with rows i show "\<exists>x. mrows tok' ! i = mrows (token_ids s) ! i @ [x]" by auto
  qed
  have rt': "\<forall>r \<in> set (mrows tok'). length r = ncols tok'"
  proof
    fix r assume "r \<in> set (mrows tok')"
    then obtain i where i: "i < B" and r: "r = mrows tok' ! i"
      using lt' by (auto simp: in_set_conv_nth)
    from app i obtain x where "mrows tok' ! i = mrows (token_ids s) ! i @ [x]" by blast
    moreover have "length (mrows (token_ids s) ! i) = ncols (token_ids s)"
      using rt i lt by simp
    ultimately show "length r = ncols tok'" using r ct by simp
  qed
  show "shapes_agree B s'"
    using s' am' lt' la lfl ct nc rt' ra
    by (auto simp: shapes_agree_def list_all_iff)
  show "ncols (token_ids s') = ncols (token_ids s) + 1" using s' ct by simp
  show "attention_mask s' = \<lparr>ncols = ncols (attention_mask s) + 1,
                               mrows = map (\<lambda>r. r @ [1]) (mrows (attention_mask s))\<rparr>"
    using s' am' by simp
  show "\<forall>i < B. \<exists>x. mrows (token_ids s') ! i = mrows (token_ids s) ! i @ [x]"
    using s' app by simp
  show "\<forall>i < B. is_finished_flags s ! i \<longrightarrow>
           is_finished_flags s' ! i
           \<and> mrows (token_ids s') ! i = mrows (token_ids s) ! i @ [pad_token_id self]"
  proof (intro allI impI)
    fix i assume i: "i < B" and f: "is_finished_flags s ! i"
    then have ns: "\<not> map Not (is_finished_flags s) ! i" using lf by simp
    have "fl' ! i = is_finished_flags s ! i"
      using mask_assign_unselected [OF fl _ ns] i lf by simp
    moreover have "next_rows ! i = [pad_token_id self]"
      using mask_assign_unselected [OF nr _ ns] i by (simp add: full_def)
    ultimately show "is_finished_flags s' ! i
           \<and> mrows (token_ids s') ! i = mrows (token_ids s) ! i @ [pad_token_id self]"
      using s' f rows i by simp
  qed
qed

section \<open>The concrete generator, evaluated\<close>

lemma ex_seq_fields:
  "model_forward (ex_seq m) = ex_forward" "tokenizer_encode (ex_seq m) = ex_encode"
  "tokenizer_decode (ex_seq m) = ex_decode" "pad_token_id (ex_seq m) = 9"
  "max_tokens (ex_seq m) = m" "create_proposal_hook (ex_seq m) = create_proposal"
  "is_finished_hook (ex_seq m) = ex_is_finished"
  "postprocess_hook (ex_seq m) = postprocess_completions"
  "rng_uniform (ex_seq m) = ex_uniform" "rng_advance (ex_seq m) = ex_advance"
  "rng_fresh (ex_seq m) = 0"
  by (simp_all add: ex_seq_def)

lemma upt_small:
  "[0..<2] = [0, 1]" "[0..<4] = [0, 1, 2, 3]"
  by (simp_all add: upt_rec)

lemma ex_initial_state:
  "initial_state (ex_seq m) (StrList [''a'', ''b'']) 2 None = Inr (Suc 0, 4, ex_s0)"
  by (simp add: initial_state_def ex_seq_fields ex_encode_def ex_token_def squeeze0_def
        broadcast_to_def reshape_def numel_def ex_s0_def Let_def upt_small eval_nat_numeral)

lemma ex_rows:
  "softmax_row [ln 3, 0] = [3 / 4, 1 / 4]" "softmax_row [0, ln 3] = [1 / 4, 3 / 4]"
  "cumsum [3 / 4, 1 / 4] = [3 / 4, 1]" "cumsum [1 / 4, 3 / 4] = [1 / 4, 1]"
  "count_below [3 / 4, 1] (1 / 2) = 0" "count_below [1 / 4, 1] (1 / 2) = 1"
  by (simp_all add: softmax_row_def cumsum_def count_below_def)

lemma f0: "ex_forward \<lparr>ncols = c, mrows = [[7], [8], [7], [8]]\<rparr> am None
   = (\<lparr>shape = [4, 2], data = [ln 3, 0, ln 3, 0, ln 3, 0, ln 3, 0]\<rparr>, Some [[[7, 8, 7, 8], [7, 8, 7, 8]]])"
  by (simp add: ex_forward_def ex_logits_def)

lemma rows0: "last_axis_rows \<lparr>shape = [4, 2], data = [a0, a1, b0, b1, c0, c1, d0, d1]\<rparr>
    = [[a0, a1], [b0, b1], [c0, c1], [d0, d1]]"
  by (simp add: last_axis_rows_def last_dim_def upt_small)


lemma rows_n1:
  "last_axis_rows \<lparr>shape = [4, Suc 0], data = [a, b, c, d]\<rparr> = [[a], [b], [c], [d]]"
  "last_axis_rows \<lparr>shape = [2, Suc 0], data = [a, b]\<rparr> = [[a], [b]]"
  by (simp_all add: last_axis_rows_def last_dim_def upt_small)

lemma ex_step0:
  "step (ex_seq m) 0 L \<lparr>ncols = c, mrows = [[7], [8], [7], [8]]\<rparr> am 1 None
   = Inr (\<lparr>shape = [1, 4, 1], data = [0, 0, 0, 0]\<rparr>,
          \<lparr>shape = [1, 4, 2], data = [3 / 4, 1 / 4, 3 / 4, 1 / 4, 3 / 4, 1 / 4, 3 / 4, 1 / 4]\<rparr>,
          Some [[[7, 8, 7, 8], [7, 8, 7, 8]]], 4)"
  by (simp add: step_def ex_seq_fields f0 create_proposal_def
        softmax_def rows0 vectorized_random_choice_Inr
        ex_rows ex_uniform_def ex_advance_def unsqueeze_last_def broadcast_to_def
        drop_cols_def upt_small Let_def)


lemma f1: "ex_forward \<lparr>ncols = c, mrows = [[7, 0], [8, 0], [7, 0], [8, 0]]\<rparr> am (Some kv)
   = (\<lparr>shape = [4, 2], data = [0, ln 3, ln 3, 0, 0, ln 3, ln 3, 0]\<rparr>, None)"
  by (simp add: ex_forward_def ex_logits_def)

lemma f2: "ex_forward \<lparr>ncols = c, mrows = [[8, 0, 0], [8, 0, 0]]\<rparr> am (Some kv)
   = (\<lparr>shape = [2, 2], data = [ln 3, 0, ln 3, 0]\<rparr>, None)"
  by (simp add: ex_forward_def ex_logits_def)

lemma rows2: "last_axis_rows \<lparr>shape = [2, 2], data = [a0, a1, b0, b1]\<rparr> = [[a0, a1], [b0, b1]]"
  by (simp add: last_axis_rows_def last_dim_def upt_small)

lemmas step_eval = step_def ex_seq_fields create_proposal_def
        softmax_def rows0 rows2 vectorized_random_choice_Inr
        ex_rows ex_uniform_def ex_advance_def unsqueeze_last_def broadcast_to_def
        drop_cols_def upt_small Let_def

lemma ex_step1:
  "step (ex_seq m) 4 L \<lparr>ncols = c, mrows = [[7, 0], [8, 0], [7, 0], [8, 0]]\<rparr> am 1 (Some kv)
   = Inr (\<lparr>shape = [1, 4, 1], data = [1, 0, 1, 0]\<rparr>,
          \<lparr>shape = [1, 4, 2], data = [1 / 4, 3 / 4, 3 / 4, 1 / 4, 1 / 4, 3 / 4, 3 / 4, 1 / 4]\<rparr>,
          None, 8)"
  by (simp add: step_eval f1)

lemma ex_step2:
  "step (ex_seq m) 8 L \<lparr>ncols = c, mrows = [[8, 0, 0], [8, 0, 0]]\<rparr> am 1 (Some kv)
   = Inr (\<lparr>shape = [1, 2, 1], data = [0, 0]\<rparr>,
          \<lparr>shape = [1, 2, 2], data = [3 / 4, 1 / 4, 3 / 4, 1 / 4]\<rparr>,
          None, 10)"
  by (simp add: step_eval f2)

lemma replicate_4: "replicate 4 x = [x, x, x, x]"
  by (simp add: eval_nat_numeral)

lemmas iteration_eval = iteration_def forward_args_def unfinished_rows_def mask_index_def
  mask_assign_def full_def replicate_4 squeeze0_def rows_n1 concatenate_def
  expand_attention_mask_Inr drop_cols_def ex_seq_fields ex_is_finished_def
  update_past_key_values_def truthy_def prune_past_key_values_def Let_def

lemma ex_iteration0: "iteration (ex_seq m) (Suc 0) 4 ex_s0 = Inr ex_s1"
  by (simp add: ex_s0_def ex_s1_def iteration_eval ex_step0)

lemma ex_iteration1: "iteration (ex_seq m) (Suc 0) 4 ex_s1 = Inr ex_s2"
  by (simp add: ex_s1_def ex_s2_def iteration_eval ex_step1)

lemma ex_iteration2: "iteration (ex_seq m) (Suc 0) 4 ex_s2 = Inr ex_s3"
  by (simp add: ex_s2_def ex_s3_def iteration_eval ex_step2)

lemma ex_should_stop:
  "should_stop (ex_seq m) (Suc 0) ex_s0 = (m = Some 0)"
  "should_stop (ex_seq m) (Suc 0) ex_s1 = (m = Some 1)"
  "should_stop (ex_seq m) (Suc 0) ex_s2 = (m = Some 2)"
  "should_stop (ex_seq m) (Suc 0) ex_s3 = (m = Some 3)"
  by (auto simp: should_stop_def ex_seq_fields ex_s0_def ex_s1_def ex_s2_def ex_s3_def)

lemmas ex_eval = ex_initial_state ex_should_stop ex_iteration0 ex_iteration1 ex_iteration2

lemma ex_seq_cached_fields:
  "model_forward (ex_seq_cached m) = ex_forward_cached"
  "tokenizer_encode (ex_seq_cached m) = ex_encode"
  "tokenizer_decode (ex_seq_cached m) = ex_decode" "pad_token_id (ex_seq_cached m) = 9"
  "max_tokens (ex_seq_cached m) = m" "create_proposal_hook (ex_seq_cached m) = create_proposal"
  "is_finished_hook (ex_seq_cached m) = ex_is_finished"
  "postprocess_hook (ex_seq_cached m) = postprocess_completions"
  "rng_uniform (ex_seq_cached m) = ex_uniform" "rng_advance (ex_seq_cached m) = ex_advance"
  "rng_fresh (ex_seq_cached m) = 0"
  by (simp_all add: ex_seq_cached_def ex_seq_def)

lemma ex_initial_state_cached:
  "initial_state (ex_seq_cached m) (StrList [''a'', ''b'']) 2 None = Inr (Suc 0, 4, ex_s0)"
  by (simp add: initial_state_def ex_seq_cached_fields ex_encode_def ex_token_def squeeze0_def
        broadcast_to_def reshape_def numel_def ex_s0_def Let_def upt_small eval_nat_numeral)

lemma fc0: "ex_forward_cached \<lparr>ncols = c, mrows = [[7], [8], [7], [8]]\<rparr> am None
   = (\<lparr>shape = [4, 2], data = [ln 3, 0, ln 3, 0, ln 3, 0, ln 3, 0]\<rparr>,
      Some [[[7, 8, 7, 8], [7, 8, 7, 8]]])"
  by (simp add: ex_forward_cached_def f0)

lemma fc1: "ex_forward_cached \<lparr>ncols = c, mrows = [[7, 0], [8, 0], [7, 0], [8, 0]]\<rparr> am (Some kv)
   = (\<lparr>shape = [4, 2], data = [0, ln 3, ln 3, 0, 0, ln 3, ln 3, 0]\<rparr>,
      Some [[[7, 8, 7, 8], [7, 8, 7, 8]]])"
  by (simp add: ex_forward_cached_def f1)

lemmas step_eval_cached = step_def ex_seq_cached_fields create_proposal_def
        softmax_def rows0 rows2 vectorized_random_choice_Inr
        ex_rows ex_uniform_def ex_advance_def unsqueeze_last_def broadcast_to_def
        drop_cols_def upt_small Let_def

lemma ex_step0_cached:
  "step (ex_seq_cached m) 0 L \<lparr>ncols = c, mrows = [[7], [8], [7], [8]]\<rparr> am 1 None
   = Inr (\<lparr>shape = [1, 4, 1], data = [0, 0, 0, 0]\<rparr>,
          \<lparr>shape = [1, 4, 2], data = [3 / 4, 1 / 4, 3 / 4, 1 / 4, 3 / 4, 1 / 4, 3 / 4, 1 / 4]\<rparr>,
          Some [[[7, 8, 7, 8], [7, 8, 7, 8]]], 4)"
  by (simp add: step_eval_cached fc0)

lemma ex_step1_cached:
  "step (ex_seq_cached m) 4 L \<lparr>ncols = c, mrows = [[7, 0], [8, 0], [7, 0], [8, 0]]\<rparr> am 1 (Some kv)
   = Inr (\<lparr>shape = [1, 4, 1], data = [1, 0, 1, 0]\<rparr>,
          \<lparr>shape = [1, 4, 2], data = [1 / 4, 3 / 4, 3 / 4, 1 / 4, 1 / 4, 3 / 4, 3 / 4, 1 / 4]\<rparr>,
          Some [[[7, 8, 7, 8], [7, 8, 7, 8]]], 8)"
  by (simp add: step_eval_cached fc1)

lemmas iteration_eval_cached = iteration_def forward_args_def unfinished_rows_def mask_index_def
  mask_assign_def full_def replicate_4 squeeze0_def rows_n1 concatenate_def
  expand_attention_mask_Inr drop_cols_def ex_seq_cached_fields ex_is_finished_def
  update_past_key_values_def truthy_def prune_past_key_values_def Let_def

lemma ex_iteration0_cached: "iteration (ex_seq_cached m) (Suc 0) 4 ex_s0 = Inr ex_s1"
  by (simp add: ex_s0_def ex_s1_def iteration_eval_cached ex_step0_cached)

lemma ex_iteration1_cached: "iteration (ex_seq_cached m) (Suc 0) 4 ex_s1 = Inr ex_s2_cached"
  by (simp add: ex_s1_def ex_s2_def ex_s2_cached_def iteration_eval_cached ex_step1_cached)

lemma ex_should_stop_cached:
  "should_stop (ex_seq_cached m) (Suc 0) ex_s0 = (m = Some 0)"
  "should_stop (ex_seq_cached m) (Suc 0) ex_s1 = (m = Some 1)"
  by (auto simp: should_stop_def ex_seq_cached_fields ex_s0_def ex_s1_def)

lemma ex_forward_args:
  "forward_args ex_s0 = Inr (token_ids ex_s0, attention_mask ex_s0, None)"
  "forward_args ex_s1 = Inr (token_ids ex_s1, attention_mask ex_s1,
                             Some [[[7, 8, 7, 8], [7, 8, 7, 8]]])"
  "forward_args ex_s2 = Inr (\<lparr>ncols = 3, mrows = [[8, 0, 0], [8, 0, 0]]\<rparr>,
                             \<lparr>ncols = 3, mrows = [[1, 1, 1], [1, 1, 1]]\<rparr>,
                             Some [[[7, 8, 7, 8], [7, 8, 7, 8]]])"
  by (simp_all add: forward_args_def unfinished_rows_def mask_index_def ex_s0_def ex_s1_def
        ex_s2_def)

lemmas ex_eval_cached = ex_initial_state_cached ex_should_stop_cached ex_iteration0_cached
  ex_iteration1_cached

section \<open>Invariants of the loop\<close>

lemma run_iterations_shapes:
  "shapes_agree B s \<Longrightarrow> run_iterations self L B k s = Inr s' \<Longrightarrow> shapes_agree B s'"
proof (induction k arbitrary: s)
  case 0
  then show ?case by simp
next
  case (Suc k)
  show ?case
  proof (cases "should_stop self L s")
    case True
    with Suc.prems show ?thesis by simp
  next
    case False
    with Suc.prems obtain s1 where it: "iteration self L B s = Inr s1"
      and rest: "run_iterations self L B k s1 = Inr s'"
      by (auto split: sum.splits)
    from iteration_shapes(1) [OF it Suc.prems(1)] rest show ?thesis
      by (rule Suc.IH)
  qed
qed



lemma run_iterations_finished:
  "shapes_agree B s \<Longrightarrow> i < B \<Longrightarrow> is_finished_flags s ! i \<Longrightarrow>
   run_iterations self L B k s = Inr s' \<Longrightarrow>
     is_finished_flags s' ! i
     \<and> ncols (token_ids s) \<le> ncols (token_ids s')
     \<and> mrows (token_ids s') ! i =
         mrows (token_ids s) ! i
           @ replicate (ncols (token_ids s') - ncols (token_ids s)) (pad_token_id self)"
proof (induction k arbitrary: s)
  case 0
  then show ?case by simp
next
  case (Suc k)
  show ?case
  proof (cases "should_stop self L s")
    case True
    with Suc.prems show ?thesis by simp
  next
    case False
    with Suc.prems obtain s1 where it: "iteration self L B s = Inr s1"
      and rest: "run_iterations self L B k s1 = Inr s'"
      by (auto split: sum.splits)
    note sh1 = iteration_shapes(1) [OF it Suc.prems(1)]
    from iteration_shapes(5) [OF it Suc.prems(1)] Suc.prems(2,3)
    have f1: "is_finished_flags s1 ! i"
      and r1: "mrows (token_ids s1) ! i = mrows (token_ids s) ! i @ [pad_token_id self]"
      by auto
    have n1: "ncols (token_ids s1) = ncols (token_ids s) + 1"
      by (rule iteration_shapes(2) [OF it Suc.prems(1)])
    from Suc.IH [OF sh1 Suc.prems(2) f1 rest]
    have a: "is_finished_flags s' ! i" and b: "ncols (token_ids s1) \<le> ncols (token_ids s')"
      and c: "mrows (token_ids s') ! i = mrows (token_ids s1) ! i
           @ replicate (ncols (token_ids s') - ncols (token_ids s1)) (pad_token_id self)"
      by auto
    have "[pad_token_id self] @ replicate (ncols (token_ids s') - ncols (token_ids s1)) (pad_token_id self)
        = replicate (ncols (token_ids s') - ncols (token_ids s)) (pad_token_id self)"
      using b n1 by (simp add: Suc_diff_Suc flip: replicate_Suc)
    with a b c r1 n1 show ?thesis by simp
  qed
qed

lemma forward_args_shapes:
  assumes "shapes_agree B s"
  shows "forward_args s =
     Inr ((token_ids s)\<lparr>mrows := map (\<lambda>j. mrows (token_ids s) ! j)
                                   (active_indices (is_finished_flags s))\<rparr>,
          (attention_mask s)\<lparr>mrows := map (\<lambda>j. mrows (attention_mask s) ! j)
                                   (active_indices (is_finished_flags s))\<rparr>,
          unfinished_past_key_values s)"
proof -
  from assms have l: "length (mrows (token_ids s)) = length (is_finished_flags s)"
    "length (mrows (attention_mask s)) = length (is_finished_flags s)"
    by (simp_all add: shapes_agree_def)
  have f: "filter (\<lambda>j. map Not (is_finished_flags s) ! j) [0..<length (is_finished_flags s)]
       = active_indices (is_finished_flags s)"
    unfolding active_indices_def by (rule filter_cong) auto
  show ?thesis
    using l f
    by (simp add: forward_args_def unfinished_rows_def mask_index_upt)
qed

lemma mapE_Inr:
  "mapE f xs = Inr ys \<Longrightarrow> \<forall>y \<in> set ys. \<exists>x \<in> set xs. f x = Inr y"
proof (induction xs arbitrary: ys)
  case Nil
  then show ?case by simp
next
  case (Cons x xs)
  then show ?case by (auto split: sum.splits)
qed

lemma scatter_flags_count:
  "length vs = length (filter id (map Not flags)) \<Longrightarrow>
     length (filter Not (scatter (map Not flags) flags vs)) = length (filter Not vs)"
proof (induction flags arbitrary: vs)
  case Nil
  then show ?case by simp
next
  case (Cons b flags)
  show ?case
  proof (cases b)
    case True
    with Cons show ?thesis by simp
  next
    case False
    with Cons.prems obtain v vs' where vs: "vs = v # vs'" by (cases vs) auto
    with False Cons show ?thesis by simp
  qed
qed

lemma prune_rows:
  assumes "prune_past_key_values local kv = Inr kv'"
  shows "\<forall>v \<in> set kv'. \<forall>vv \<in> set v. length vv = length (filter Not local)"
proof (intro ballI)
  fix v vv assume v: "v \<in> set kv'" and vv: "vv \<in> set v"
  from mapE_Inr [OF assms [unfolded prune_past_key_values_def]] v
  obtain u where "mapE (\<lambda>vv. mask_index (map Not local) vv) u = Inr v" by blast
  from mapE_Inr [OF this] vv obtain w where "mask_index (map Not local) w = Inr vv" by blast
  from mask_index_length [OF this] show "length vv = length (filter Not local)"
    by (simp add: filter_map o_def)
qed

lemma prune_rows_input:
  assumes "prune_past_key_values local kv = Inr kv'"
  shows "\<forall>v \<in> set kv. \<forall>vv \<in> set v. length vv = length local"
proof -
  have inner: "mapE (\<lambda>vv. mask_index (map Not local) vv) u = Inr v \<Longrightarrow>
      \<forall>vv \<in> set u. length vv = length local" for u :: "'a list list" and v
  proof (induction u arbitrary: v)
    case Nil
    then show ?case by simp
  next
    case (Cons a u)
    then show ?case by (auto simp: mask_index_def split: sum.splits if_splits)
  qed
  have "mapE (\<lambda>v. mapE (\<lambda>vv. mask_index (map Not local) vv) v) kv = Inr kv' \<Longrightarrow>
      \<forall>v \<in> set kv. \<forall>vv \<in> set v. length vv = length local"
  proof (induction kv arbitrary: kv')
    case Nil
    then show ?case by simp
  next
    case (Cons a kv)
    then show ?case using inner by (fastforce split: sum.splits)
  qed
  then show ?thesis using assms by (simp add: prune_past_key_values_def)
qed





section \<open>Claims about the loop\<close>

text \<open>
  C8. At the head of the loop of every invocation, before and after each pass, the token-id
  matrix and the attention mask both have \<open>batch_size\<close> rows and the same column count,
  and every row is that long; a pass through the body appends exactly one column to both,
  the one of the mask holding a 1 in every row, finished rows included.
\<close>

theorem mask_and_tokens_same_shape:
  assumes "initial_state self prompt samples rng_arg = Inr (L, B, s0)"
    and "run_iterations self L B k s0 = Inr s"
  shows "length (mrows (token_ids s)) = B \<and> length (mrows (attention_mask s)) = B
     \<and> ncols (attention_mask s) = ncols (token_ids s)
     \<and> list_all (\<lambda>r. length r = ncols (token_ids s)) (mrows (token_ids s))
     \<and> list_all (\<lambda>r. length r = ncols (token_ids s)) (mrows (attention_mask s))
     \<and> (\<forall>s'. iteration self L B s = Inr s' \<longrightarrow>
           attention_mask s' = \<lparr>ncols = ncols (attention_mask s) + 1,
                                 mrows = map (\<lambda>r. r @ [1]) (mrows (attention_mask s))\<rparr>
         \<and> ncols (token_ids s') = ncols (token_ids s) + 1)"
proof -
  from initial_state_shapes [OF assms(1)] have "shapes_agree B s0" by simp
  then have sh: "shapes_agree B s" using assms(2) by (rule run_iterations_shapes)
  then show ?thesis
    using iteration_shapes(2,3) [OF _ sh] by (auto simp: shapes_agree_def)
qed

theorem mask_and_tokens_same_shape_witness:
  "initial_state (ex_seq (Some 2)) (StrList [''a'', ''b'']) 2 None = Inr (1, 4, ex_s0)
   \<and> run_iterations (ex_seq (Some 2)) 1 4 1 ex_s0 = Inr ex_s1
   \<and> length (mrows (token_ids ex_s1)) = 4 \<and> length (mrows (attention_mask ex_s1)) = 4
   \<and> ncols (attention_mask ex_s1) = ncols (token_ids ex_s1)
   \<and> list_all (\<lambda>r. length r = ncols (token_ids ex_s1)) (mrows (token_ids ex_s1))
   \<and> list_all (\<lambda>r. length r = ncols (token_ids ex_s1)) (mrows (attention_mask ex_s1))
   \<and> iteration (ex_seq (Some 2)) 1 4 ex_s1 = Inr ex_s2
   \<and> attention_mask ex_s2 = \<lparr>ncols = ncols (attention_mask ex_s1) + 1,
                               mrows = map (\<lambda>r. r @ [1]) (mrows (attention_mask ex_s1))\<rparr>
   \<and> ncols (token_ids ex_s2) = ncols (token_ids ex_s1) + 1"
proof -
  have h1: "initial_state (ex_seq (Some 2)) (StrList [''a'', ''b'']) 2 None = Inr (1, 4, ex_s0)"
    by (simp add: ex_eval)
  have h2: "run_iterations (ex_seq (Some 2)) 1 4 1 ex_s0 = Inr ex_s1"
    by (simp add: ex_eval)
  have h3: "iteration (ex_seq (Some 2)) 1 4 ex_s1 = Inr ex_s2"
    by (simp add: ex_eval)
  show ?thesis
    using h1 h2 h3 mask_and_tokens_same_shape [OF h1 h2] by blast
qed

text \<open>
  C5. Let row \<open>i\<close> be finished in some state \<open>s\<close> that an invocation reaches. In every
  state reached from \<open>s\<close> by further passes the row is still finished, its index is not
  among the rows handed to the model's forward call, its columns up to the ones it had in
  \<open>s\<close> are unchanged, and every later column holds the padding token id.
\<close>

theorem finished_rows_frozen:
  assumes "initial_state self prompt samples rng_arg = Inr (L, B, s0)"
    and "run_iterations self L B j s0 = Inr s"
    and "i < B" and "is_finished_flags s ! i"
    and "run_iterations self L B k s = Inr s'"
  shows "is_finished_flags s' ! i
     \<and> i \<notin> set (active_indices (is_finished_flags s'))
     \<and> (\<exists>ut um pk. forward_args s' = Inr (ut, um, pk)
          \<and> mrows ut = map (\<lambda>j. mrows (token_ids s') ! j)
                            (active_indices (is_finished_flags s'))
          \<and> mrows um = map (\<lambda>j. mrows (attention_mask s') ! j)
                            (active_indices (is_finished_flags s')))
     \<and> take (ncols (token_ids s)) (mrows (token_ids s') ! i) = mrows (token_ids s) ! i
     \<and> drop (ncols (token_ids s)) (mrows (token_ids s') ! i)
         = replicate (ncols (token_ids s') - ncols (token_ids s)) (pad_token_id self)"
proof -
  from initial_state_shapes [OF assms(1)] have "shapes_agree B s0" by simp
  then have sh: "shapes_agree B s" using assms(2) by (rule run_iterations_shapes)
  then have sh': "shapes_agree B s'" using assms(5) by (rule run_iterations_shapes)
  from run_iterations_finished [OF sh assms(3,4,5)]
  have f: "is_finished_flags s' ! i"
    and r: "mrows (token_ids s') ! i = mrows (token_ids s) ! i
           @ replicate (ncols (token_ids s') - ncols (token_ids s)) (pad_token_id self)"
    by auto
  from sh assms(3) have len: "length (mrows (token_ids s) ! i) = ncols (token_ids s)"
    by (simp add: shapes_agree_def list_all_length)
  have "i \<notin> set (active_indices (is_finished_flags s'))"
    using f by (simp add: active_indices_def)
  moreover have "take (ncols (token_ids s)) (mrows (token_ids s') ! i) = mrows (token_ids s) ! i"
    using r len by simp
  moreover have "drop (ncols (token_ids s)) (mrows (token_ids s') ! i)
         = replicate (ncols (token_ids s') - ncols (token_ids s)) (pad_token_id self)"
    using r len by simp
  ultimately show ?thesis
    using f forward_args_shapes [OF sh'] by simp
qed

theorem finished_rows_frozen_witness:
  "initial_state (ex_seq (Some 3)) (StrList [''a'', ''b'']) 2 None = Inr (1, 4, ex_s0)
   \<and> run_iterations (ex_seq (Some 3)) 1 4 2 ex_s0 = Inr ex_s2
   \<and> (0::nat) < 4 \<and> is_finished_flags ex_s2 ! 0
   \<and> run_iterations (ex_seq (Some 3)) 1 4 1 ex_s2 = Inr ex_s3
   \<and> is_finished_flags ex_s3 ! 0
   \<and> 0 \<notin> set (active_indices (is_finished_flags ex_s3))
   \<and> (\<exists>ut um pk. forward_args ex_s3 = Inr (ut, um, pk)
          \<and> mrows ut = map (\<lambda>j. mrows (token_ids ex_s3) ! j)
                            (active_indices (is_finished_flags ex_s3))
          \<and> mrows um = map (\<lambda>j. mrows (attention_mask ex_s3) ! j)
                            (active_indices (is_finished_flags ex_s3)))
   \<and> take (ncols (token_ids ex_s2)) (mrows (token_ids ex_s3) ! 0) = mrows (token_ids ex_s2) ! 0
   \<and> drop (ncols (token_ids ex_s2)) (mrows (token_ids ex_s3) ! 0)
       = replicate (ncols (token_ids ex_s3) - ncols (token_ids ex_s2))
           (pad_token_id (ex_seq (Some 3)))"
proof -
  have h1: "initial_state (ex_seq (Some 3)) (StrList [''a'', ''b'']) 2 None = Inr (1, 4, ex_s0)"
    by (simp add: ex_eval)
  have h2: "run_iterations (ex_seq (Some 3)) 1 4 2 ex_s0 = Inr ex_s2"
    by (simp add: ex_eval numeral_2_eq_2)
  have h3: "(0::nat) < 4" by simp
  have h4: "is_finished_flags ex_s2 ! 0" by (simp add: ex_s2_def)
  have h5: "run_iterations (ex_seq (Some 3)) 1 4 1 ex_s2 = Inr ex_s3"
    by (simp add: ex_eval)
  show ?thesis
    using h1 h2 h3 h4 h5 finished_rows_frozen [OF h1 h2 h3 h4 h5] by blast
qed



section \<open>The incremental state\<close>

text \<open>
  C10. The stored incremental state is replaced only when the state that the forward call
  of the pass returned is true in Python's sense, and then by its pruning. When the
  returned state is \<^verbatim>\<open>None\<close> or empty the stored state is kept as it was, and it is what the
  forward call of the next pass receives.
\<close>

theorem stale_state_kept:
  assumes "iteration self L B s = Inr s'"
    and "forward_args s = Inr (ut, um, pk)"
    and "model_forward self ut um pk = (logits, returned)"
  shows "pk = unfinished_past_key_values s
     \<and> (\<not> truthy returned \<longrightarrow>
          unfinished_past_key_values s' = unfinished_past_key_values s
          \<and> (\<forall>ut' um' pk'. forward_args s' = Inr (ut', um', pk') \<longrightarrow>
                pk' = unfinished_past_key_values s))
     \<and> (unfinished_past_key_values s' \<noteq> unfinished_past_key_values s \<longrightarrow> truthy returned)
     \<and> (truthy returned \<longrightarrow>
          (\<exists>local kv. prune_past_key_values local (the returned) = Inr kv
             \<and> unfinished_past_key_values s' = Some kv))"
proof -
  from assms(1) obtain ut0 um0 next_ids probs pkv g' next_rows tok' am' active finished fl' ukv'
    where
    fa: "forward_args s = Inr (ut0, um0, unfinished_past_key_values s)" and
    st: "step self (rng s) L ut0 um0 1 (unfinished_past_key_values s) = Inr (next_ids, probs, pkv, g')" and
    nr: "mask_assign (map Not (is_finished_flags s)) (mrows (full B 1 (pad_token_id self)))
       (last_axis_rows (squeeze0 next_ids)) = Inr next_rows" and
    co: "concatenate (token_ids s) \<lparr>ncols = 1, mrows = next_rows\<rparr> = Inr tok'" and
    ex: "expand_attention_mask (attention_mask s) = Inr am'" and
    ur: "unfinished_rows (is_finished_flags s) tok' = Inr active" and
    hk: "is_finished_hook self (drop_cols L active) = Inr finished" and
    fl: "mask_assign (map Not (is_finished_flags s)) (is_finished_flags s) (data finished) = Inr fl'" and
    up: "update_past_key_values (data finished) pkv (unfinished_past_key_values s) = Inr ukv'" and
    s': "s' = \<lparr>token_ids = tok', attention_mask = am', is_finished_flags = fl',
           unfinished_past_key_values = ukv', rng = g'\<rparr>"
    by (rule iteration_InrE)
  from fa assms(2) have eq: "ut0 = ut" "um0 = um" "pk = unfinished_past_key_values s" by simp_all
  from st obtain d where "pkv = snd (model_forward self ut0 um0 (unfinished_past_key_values s))"
    by (rule step_InrE)
  with eq assms(3) have pkv: "pkv = returned" by simp
  have stored: "unfinished_past_key_values s' = ukv'" using s' by simp
  have falsy: "ukv' = unfinished_past_key_values s" if "\<not> truthy returned"
    using up that pkv by (simp add: update_past_key_values_def)
  have next_args: "pk' = unfinished_past_key_values s'"
    if "forward_args s' = Inr (ut', um', pk')" for ut' um' pk'
    using that by (auto simp: forward_args_def split: sum.splits)
  have truthy: "\<exists>local kv. prune_past_key_values local (the returned) = Inr kv \<and> ukv' = Some kv"
    if "truthy returned"
    using up that pkv by (auto simp: update_past_key_values_def split: sum.splits)
  show ?thesis
    using eq(3) stored falsy next_args truthy by metis
qed

text \<open>
  C4, amended. After a pass in which the forward call returned a true state whose tensors
  have one row per row of its input, every tensor of the stored state has as many rows as
  there are unfinished rows. (When the returned state is not true the stored state is
  kept, see C10, and may have more rows than that.)
\<close>

theorem pruned_state_rows:
  assumes "iteration self L B s = Inr s'"
    and "forward_args s = Inr (ut, um, pk)"
    and "model_forward self ut um pk = (logits, returned)"
    and "truthy returned"
    and "\<forall>v \<in> set (the returned). \<forall>vv \<in> set v. length vv = length (mrows ut)"
  shows "\<exists>kv. unfinished_past_key_values s' = Some kv
     \<and> (\<forall>v \<in> set kv. \<forall>vv \<in> set v.
           length vv = length (filter Not (is_finished_flags s')))"
proof -
  from assms(1) obtain ut0 um0 next_ids probs pkv g' next_rows tok' am' active finished fl' ukv'
    where
    fa: "forward_args s = Inr (ut0, um0, unfinished_past_key_values s)" and
    st: "step self (rng s) L ut0 um0 1 (unfinished_past_key_values s) = Inr (next_ids, probs, pkv, g')" and
    nr: "mask_assign (map Not (is_finished_flags s)) (mrows (full B 1 (pad_token_id self)))
       (last_axis_rows (squeeze0 next_ids)) = Inr next_rows" and
    co: "concatenate (token_ids s) \<lparr>ncols = 1, mrows = next_rows\<rparr> = Inr tok'" and
    ex: "expand_attention_mask (attention_mask s) = Inr am'" and
    ur: "unfinished_rows (is_finished_flags s) tok' = Inr active" and
    hk: "is_finished_hook self (drop_cols L active) = Inr finished" and
    fl: "mask_assign (map Not (is_finished_flags s)) (is_finished_flags s) (data finished) = Inr fl'" and
    up: "update_past_key_values (data finished) pkv (unfinished_past_key_values s) = Inr ukv'" and
    s': "s' = \<lparr>token_ids = tok', attention_mask = am', is_finished_flags = fl',
           unfinished_past_key_values = ukv', rng = g'\<rparr>"
    by (rule iteration_InrE)
  from fa assms(2) have eq: "ut0 = ut" "um0 = um" "pk = unfinished_past_key_values s" by simp_all
  from st obtain d where "pkv = snd (model_forward self ut0 um0 (unfinished_past_key_values s))"
    by (rule step_InrE)
  with eq assms(3) have pkv: "pkv = returned" by simp
  from up assms(4) pkv obtain kv where
    pr: "prune_past_key_values (data finished) (the returned) = Inr kv" and ukv': "ukv' = Some kv"
    by (auto simp: update_past_key_values_def split: sum.splits)
  let ?n = "length (filter id (map Not (is_finished_flags s)))"
  have active_n: "length (mrows ut) = ?n"
  proof -
    from fa eq obtain rs where "mask_index (map Not (is_finished_flags s)) (mrows (token_ids s)) = Inr rs"
      and "mrows ut = rs"
      by (auto simp: forward_args_def unfinished_rows_def split: sum.splits)
    then show ?thesis using mask_index_length by blast
  qed
  show ?thesis
  proof (cases "\<exists>v \<in> set (the returned). v \<noteq> []")
    case False
    then have "\<forall>v \<in> set (the returned). v = []" by blast
    with mapE_Inr [OF pr [unfolded prune_past_key_values_def]]
    have "\<forall>v \<in> set kv. v = []" by fastforce
    then show ?thesis using s' ukv' by auto
  next
    case True
    then obtain v vv where "v \<in> set (the returned)" "vv \<in> set v"
      by (metis last_in_set)
    with prune_rows_input [OF pr] assms(5) have "length (data finished) = length (mrows ut)"
      by metis
    with active_n have len: "length (data finished) = ?n" by simp
    with fl have "fl' = scatter (map Not (is_finished_flags s)) (is_finished_flags s) (data finished)"
      by (simp add: mask_assign_def Let_def)
    with scatter_flags_count [OF len]
    have "length (filter Not fl') = length (filter Not (data finished))" by simp
    with prune_rows [OF pr] show ?thesis using s' ukv' by simp
  qed
qed

theorem stale_state_kept_witness:
  "iteration (ex_seq (Some 3)) 1 4 ex_s1 = Inr ex_s2
   \<and> forward_args ex_s1 = Inr (token_ids ex_s1, attention_mask ex_s1,
                               Some [[[7, 8, 7, 8], [7, 8, 7, 8]]])
   \<and> model_forward (ex_seq (Some 3)) (token_ids ex_s1) (attention_mask ex_s1)
         (Some [[[7, 8, 7, 8], [7, 8, 7, 8]]])
       = (\<lparr>shape = [4, 2], data = [0, ln 3, ln 3, 0, 0, ln 3, ln 3, 0]\<rparr>, None)
   \<and> \<not> truthy (None :: int kv_cache option)
   \<and> unfinished_past_key_values ex_s2 = unfinished_past_key_values ex_s1
   \<and> forward_args ex_s2 = Inr (\<lparr>ncols = 3, mrows = [[8, 0, 0], [8, 0, 0]]\<rparr>,
                               \<lparr>ncols = 3, mrows = [[1, 1, 1], [1, 1, 1]]\<rparr>,
                               Some [[[7, 8, 7, 8], [7, 8, 7, 8]]])
   \<and> Some [[[7, 8, 7, 8], [7, 8, 7, 8]]] = unfinished_past_key_values ex_s1"
proof -
  have h1: "iteration (ex_seq (Some 3)) 1 4 ex_s1 = Inr ex_s2"
    by (simp add: ex_eval)
  have h2: "forward_args ex_s1 = Inr (token_ids ex_s1, attention_mask ex_s1,
                               Some [[[7, 8, 7, 8], [7, 8, 7, 8]]])"
    by (simp add: ex_forward_args)
  have h3: "model_forward (ex_seq (Some 3)) (token_ids ex_s1) (attention_mask ex_s1)
         (Some [[[7, 8, 7, 8], [7, 8, 7, 8]]])
       = (\<lparr>shape = [4, 2], data = [0, ln 3, ln 3, 0, 0, ln 3, ln 3, 0]\<rparr>, None)"
    by (simp add: ex_seq_fields ex_s1_def f1)
  have h4: "\<not> truthy (None :: int kv_cache option)"
    by (simp add: truthy_def)
  have h5: "forward_args ex_s2 = Inr (\<lparr>ncols = 3, mrows = [[8, 0, 0], [8, 0, 0]]\<rparr>,
                               \<lparr>ncols = 3, mrows = [[1, 1, 1], [1, 1, 1]]\<rparr>,
                               Some [[[7, 8, 7, 8], [7, 8, 7, 8]]])"
    by (simp add: ex_forward_args)
  from stale_state_kept [OF h1 h2 h3] h4 h5
  have "unfinished_past_key_values ex_s2 = unfinished_past_key_values ex_s1"
    and "Some [[[7, 8, 7, 8], [7, 8, 7, 8]]] = unfinished_past_key_values ex_s1"
    by blast+
  with h1 h2 h3 h4 h5 show ?thesis by blast
qed

theorem pruned_state_rows_witness:
  "iteration (ex_seq_cached (Some 3)) 1 4 ex_s1 = Inr ex_s2_cached
   \<and> forward_args ex_s1 = Inr (token_ids ex_s1, attention_mask ex_s1,
                               Some [[[7, 8, 7, 8], [7, 8, 7, 8]]])
   \<and> model_forward (ex_seq_cached (Some 3)) (token_ids ex_s1) (attention_mask ex_s1)
         (Some [[[7, 8, 7, 8], [7, 8, 7, 8]]])
       = (\<lparr>shape = [4, 2], data = [0, ln 3, ln 3, 0, 0, ln 3, ln 3, 0]\<rparr>,
          Some [[[7, 8, 7, 8], [7, 8, 7, 8]]])
   \<and> truthy (Some [[[7, 8, 7, 8], [7, 8, 7, 8 :: int]]])
   \<and> list_all (list_all (\<lambda>vv. length vv = length (mrows (token_ids ex_s1))))
        [[[7, 8, 7, 8], [7, 8, 7, 8 :: int]]]
   \<and> is_finished_flags ex_s2_cached = [True, False, True, False]
   \<and> (\<exists>kv. unfinished_past_key_values ex_s2_cached = Some kv
        \<and> (\<forall>v \<in> set kv. \<forall>vv \<in> set v.
              length vv = length (filter Not (is_finished_flags ex_s2_cached))))"
proof -
  have h1: "iteration (ex_seq_cached (Some 3)) 1 4 ex_s1 = Inr ex_s2_cached"
    by (simp add: ex_eval_cached)
  have h2: "forward_args ex_s1 = Inr (token_ids ex_s1, attention_mask ex_s1,
                               Some [[[7, 8, 7, 8], [7, 8, 7, 8]]])"
    by (simp add: ex_forward_args)
  have h3: "model_forward (ex_seq_cached (Some 3)) (token_ids ex_s1) (attention_mask ex_s1)
         (Some [[[7, 8, 7, 8], [7, 8, 7, 8]]])
       = (\<lparr>shape = [4, 2], data = [0, ln 3, ln 3, 0, 0, ln 3, ln 3, 0]\<rparr>,
          Some [[[7, 8, 7, 8], [7, 8, 7, 8]]])"
    by (simp add: ex_seq_cached_fields ex_s1_def fc1)
  have h4: "truthy (Some [[[7, 8, 7, 8], [7, 8, 7, 8 :: int]]])"
    by (simp add: truthy_def)
  have h5: "\<forall>v \<in> set (the (Some [[[7, 8, 7, 8], [7, 8, 7, 8 :: int]]])). \<forall>vv \<in> set v.
              length vv = length (mrows (token_ids ex_s1))"
    by (simp add: ex_s1_def)
  have h6: "is_finished_flags ex_s2_cached = [True, False, True, False]"
    by (simp add: ex_s2_cached_def ex_s2_def)
  show ?thesis
    using h1 h2 h3 h4 h5 h6 pruned_state_rows [OF h1 h2 h3 h4 h5]
    by (simp add: list_all_iff)
qed

text \<open>
  C4 as stated fails. After the second pass of the concrete generator two rows are
  unfinished, but the model returned no state in that pass, so the state stored for the
  next forward call is still the one of the first pass, whose tensors have four rows.
\<close>

theorem stale_state_rows_counterexample:
  "initial_state (ex_seq (Some 3)) (StrList [''a'', ''b'']) 2 None = Inr (1, 4, ex_s0)
   \<and> run_iterations (ex_seq (Some 3)) 1 4 2 ex_s0 = Inr ex_s2
   \<and> is_finished_flags ex_s2 = [True, False, True, False]
   \<and> length (filter Not (is_finished_flags ex_s2)) = 2
   \<and> forward_args ex_s2 = Inr (\<lparr>ncols = 3, mrows = [[8, 0, 0], [8, 0, 0]]\<rparr>,
                               \<lparr>ncols = 3, mrows = [[1, 1, 1], [1, 1, 1]]\<rparr>,
                               Some [[[7, 8, 7, 8], [7, 8, 7, 8]]])
   \<and> length [7, 8, 7, 8 :: int] = 4"
  by (simp add: ex_eval ex_forward_args numeral_2_eq_2) (simp add: ex_s2_def)

section \<open>Order of the completions\<close>






section \<open>Reproducible sampling\<close>










end
